theory Spec2Isabelle
  imports Complex_Main
begin

section \<open>The relational store\<close>

text \<open>
  The bot of \<^verbatim>\<open>src/bot/index.js\<close> keeps four tables in a relational store reached through
  \<^verbatim>\<open>env.DB\<close>. A table is the list of its rows in insertion order; a row is a record whose
  fields are the columns the statements of the source name. Timestamps are milliseconds
  since the epoch, as \<^verbatim>\<open>Date.now()\<close> and \<^verbatim>\<open>new Date(..).getTime()\<close> count them. A column
  that may hold NULL is an option.
\<close>

record server_config_row =
  sc_server_id :: string
  sc_server_name :: string
  sc_created_at :: int
  leveling_enabled :: int

record command_usage_row =
  cu_id :: "int \<times> string"
  command_name :: string
  cu_server_id :: "string option"
  cu_user_id :: string
  success :: int
  execution_time :: int
  error_message :: "string option"
  used_at :: int

record bot_stats_row =
  bs_id :: string
  total_servers :: nat
  total_users :: nat
  last_restart :: int
  recorded_at :: int

record user_level_row =
  ul_id :: "int \<times> string"
  ul_user_id :: string
  ul_server_id :: string
  xp :: nat
  level :: nat
  messages_sent :: nat
  last_xp_gain :: "int option"

text \<open>
  The store renders \<^verbatim>\<open>CURRENT_TIMESTAMP\<close> from its own clock at some resolution, which the
  source does not fix: \<open>resolution\<close> is that resolution in milliseconds (1000 for a store
  that keeps whole seconds, 1 for a millisecond clock).
\<close>

record db =
  server_configs :: "server_config_row list"
  command_usage :: "command_usage_row list"
  bot_stats :: "bot_stats_row list"
  user_levels :: "user_level_row list"
  resolution :: int

definition CURRENT_TIMESTAMP :: "db \<Rightarrow> int \<Rightarrow> int" where
  "CURRENT_TIMESTAMP d t = (t div resolution d) * resolution d"

text \<open>
  Every statement sent to the store may be rejected: \<^verbatim>\<open>run()\<close> or \<^verbatim>\<open>first()\<close> then throws.
  What one statement meets is an input of the model: whether the store throws, and what
  the store's clock shows when it evaluates \<^verbatim>\<open>CURRENT_TIMESTAMP\<close>.
\<close>

record store_call =
  throws :: bool
  clock :: int

section \<open>The command handler\<close>

text \<open>
  An interaction carries the fields \<^verbatim>\<open>handleCommand\<close> and \<^verbatim>\<open>logCommandUsage\<close> read.
\<close>

record interaction =
  commandName :: string
  guildId :: "string option"
  user_id :: string
  createdTimestamp :: int
  replied :: bool
  deferred :: bool

text \<open>
  JavaScript throws any value. The \<^verbatim>\<open>catch\<close> block of \<^verbatim>\<open>handleCommand\<close> reads \<^verbatim>\<open>error.message\<close>,
  which tells four kinds of value apart: an error object with its message (a \<^verbatim>\<open>TypeError\<close>
  is one, named apart because the runtime raises it), any other value that is neither
  \<^verbatim>\<open>null\<close> nor \<^verbatim>\<open>undefined\<close> and has no message (a string, a number, a plain object), \<^verbatim>\<open>null\<close>,
  and \<^verbatim>\<open>undefined\<close>.
\<close>

datatype exn = Error string | TypeError string | Value | Null | Undefined

text \<open>
  \<^verbatim>\<open>error.message\<close>: the message of an error object; \<^verbatim>\<open>undefined\<close> for a value without one,
  which the default parameter of \<^verbatim>\<open>logCommandUsage\<close> turns into \<^verbatim>\<open>null\<close>; and for \<^verbatim>\<open>null\<close> and
  \<^verbatim>\<open>undefined\<close> the runtime raises a \<^verbatim>\<open>TypeError\<close> (the text is the engine's).
\<close>

fun message_of :: "exn \<Rightarrow> exn + string option" where
  "message_of (Error msg) = Inr (Some msg)"
| "message_of (TypeError msg) = Inr (Some msg)"
| "message_of Value = Inr None"
| "message_of Null = Inl (TypeError ''Cannot read properties of null'')"
| "message_of Undefined = Inl (TypeError ''Cannot read properties of undefined'')"

record reply_options =
  content :: string
  ephemeral :: bool

text \<open>
  The effects of one dispatch, in the order the code performs them: a row the store
  accepted into \<^verbatim>\<open>command_usage\<close>, the run of the command's \<^verbatim>\<open>execute\<close>, and the calls of
  \<^verbatim>\<open>interaction.reply\<close> and \<^verbatim>\<open>interaction.followUp\<close>.
\<close>

datatype effect =
    Insert_command_usage command_usage_row
  | Execute string
  | Reply reply_options
  | FollowUp reply_options

text \<open>
  \<^verbatim>\<open>command.execute(interaction, env)\<close> is any code: it may mark the interaction replied or
  deferred, change the store, and return or throw. A command is the function from the
  interaction and the store to what it throws (\<open>None\<close> when it returns), the interaction
  and the store it leaves. \<^verbatim>\<open>this.commands\<close> maps names to commands.
\<close>

type_synonym command = "interaction \<Rightarrow> db \<Rightarrow> exn option \<times> interaction \<times> db"

type_synonym commands = "string \<Rightarrow> command option"

definition registerCommand :: "string \<Rightarrow> command \<Rightarrow> commands \<Rightarrow> commands" where
  "registerCommand name command cs = cs(name \<mapsto> command)"

text \<open>
  What one call of \<^verbatim>\<open>logCommandUsage\<close> reads from outside: \<^verbatim>\<open>Date.now()\<close> twice, the
  nine characters cut from \<^verbatim>\<open>Math.random().toString(36)\<close>, and the store's answer to the
  INSERT. \<open>usage_row\<close> is the row the call binds to the statement; the whole body stands in
  a \<^verbatim>\<open>try\<close> whose \<^verbatim>\<open>catch\<close> only logs, so a rejected INSERT leaves no trace.
\<close>

record log_env =
  log_id_now :: int
  log_id_random :: string
  log_now :: int
  log_insert :: store_call

definition usage_row ::
  "log_env \<Rightarrow> interaction \<Rightarrow> db \<Rightarrow> bool \<Rightarrow> string option \<Rightarrow> command_usage_row" where
  "usage_row e i d succ errorMessage =
     (let rowId = (log_id_now e, log_id_random e);
          executionTime = log_now e - createdTimestamp i
      in \<lparr>cu_id = rowId, command_name = commandName i, cu_server_id = guildId i,
          cu_user_id = user_id i, success = (if succ then 1 else 0),
          execution_time = executionTime, error_message = errorMessage,
          used_at = CURRENT_TIMESTAMP d (clock (log_insert e))\<rparr>)"

definition logCommandUsage ::
  "log_env \<Rightarrow> interaction \<Rightarrow> db \<Rightarrow> bool \<Rightarrow> string option \<Rightarrow> db \<times> effect list" where
  "logCommandUsage e i d succ errorMessage =
     (let row = usage_row e i d succ errorMessage
      in if throws (log_insert e) then (d, [])
         else (d\<lparr>command_usage := command_usage d @ [row]\<rparr>, [Insert_command_usage row]))"

text \<open>
  One dispatch reads the environment of its two possible calls of \<^verbatim>\<open>logCommandUsage\<close> and
  the fate of the one reply it sends itself: \<open>reply_error\<close> is what \<^verbatim>\<open>interaction.reply\<close> or
  \<^verbatim>\<open>interaction.followUp\<close> throws, \<open>None\<close> when the call succeeds.
\<close>

record dispatch_env =
  first_log :: log_env
  second_log :: log_env
  reply_error :: "exn option"

definition send :: "dispatch_env \<Rightarrow> exn + unit" where
  "send e = (case reply_error e of None \<Rightarrow> Inr () | Some err \<Rightarrow> Inl err)"

definition not_found :: reply_options where
  "not_found = \<lparr>content = ''Command not found!'', ephemeral = True\<rparr>"

definition errorMessage :: reply_options where
  "errorMessage = \<lparr>content = ''There was an error executing this command!'', ephemeral = True\<rparr>"

text \<open>
  \<^verbatim>\<open>handleCommand\<close> returns \<open>Inr ()\<close> when it completes and \<open>Inl err\<close> when \<open>err\<close> leaves it,
  with the store and the effects it leaves behind. The lookup and the not-found reply
  stand before the \<^verbatim>\<open>try\<close>; the first \<^verbatim>\<open>logCommandUsage\<close> and \<^verbatim>\<open>execute\<close> stand inside it; the
  second \<^verbatim>\<open>logCommandUsage\<close> and the notice stand in the \<^verbatim>\<open>catch\<close> block, which nothing
  guards: there \<^verbatim>\<open>error.message\<close> is evaluated first, as an argument of the call, and a
  \<^verbatim>\<open>TypeError\<close> it raises leaves \<^verbatim>\<open>handleCommand\<close> before any row or notice.
\<close>

definition handleCommand ::
  "commands \<Rightarrow> dispatch_env \<Rightarrow> interaction \<Rightarrow> db \<Rightarrow> (exn + unit) \<times> db \<times> effect list" where
  "handleCommand cs e i d =
     (case cs (commandName i) of
        None \<Rightarrow> (send e, d, [Reply not_found])
      | Some command \<Rightarrow>
          (let (d1, t1) = logCommandUsage (first_log e) i d True None;
               (thrown, i', d2) = command i d1
           in case thrown of
                None \<Rightarrow> (Inr (), d2, t1 @ [Execute (commandName i)])
              | Some error \<Rightarrow>
                  (case message_of error of
                     Inl typeError \<Rightarrow> (Inl typeError, d2, t1 @ [Execute (commandName i)])
                   | Inr message \<Rightarrow>
                       (let (d3, t2) = logCommandUsage (second_log e) i' d2 False message
                        in (send e, d3,
                            t1 @ [Execute (commandName i)] @ t2 @
                            [if replied i' \<or> deferred i' then FollowUp errorMessage
                             else Reply errorMessage])))))"

text \<open>
  What the handler of a dispatch throws: \<open>None\<close> when the name is not registered or the
  handler returns.
\<close>

definition thrown_by :: "commands \<Rightarrow> dispatch_env \<Rightarrow> interaction \<Rightarrow> db \<Rightarrow> exn option" where
  "thrown_by cs e i d =
     (case cs (commandName i) of
        None \<Rightarrow> None
      | Some command \<Rightarrow> fst (command i (fst (logCommandUsage (first_log e) i d True None))))"

fun rows_written :: "effect list \<Rightarrow> command_usage_row list" where
  "rows_written [] = []"
| "rows_written (Insert_command_usage row # t) = row # rows_written t"
| "rows_written (_ # t) = rows_written t"


section \<open>The event handler\<close>

record guild =
  guild_id :: string
  guild_name :: string
  memberCount :: nat

record message =
  author_id :: string
  author_bot :: bool
  msg_guild :: "string option"

subsection \<open>Server configuration and statistics\<close>

text \<open>
  Modelled from the spec: the schema of the tables is not in the source. The spec gives
  \<^verbatim>\<open>server_configs(server_id UNIQUE, server_name, created_at, leveling_enabled DEFAULT true)\<close>
  and \<^verbatim>\<open>bot_stats(id UNIQUE fixed='main_stats', ...)\<close>. So a row inserted without the flag
  holds 1 there, \<^verbatim>\<open>INSERT OR IGNORE\<close> leaves the table alone when it holds a row of the same
  \<^verbatim>\<open>server_id\<close>, and \<^verbatim>\<open>INSERT OR REPLACE\<close> removes the rows of the same \<^verbatim>\<open>id\<close> first.
\<close>

definition leveling_enabled_default :: int where
  "leveling_enabled_default = 1"

text \<open>
  \<^verbatim>\<open>createServerConfig\<close> and \<^verbatim>\<open>updateBotStats\<close> each send one statement inside a \<^verbatim>\<open>try\<close> whose
  \<^verbatim>\<open>catch\<close> only logs: a statement the store rejects leaves the store as it was.
\<close>

definition createServerConfig :: "store_call \<Rightarrow> guild \<Rightarrow> db \<Rightarrow> db" where
  "createServerConfig c g d =
     (if throws c then d
      else if guild_id g \<in> set (map sc_server_id (server_configs d)) then d
      else d\<lparr>server_configs := server_configs d @
               [\<lparr>sc_server_id = guild_id g, sc_server_name = guild_name g,
                 sc_created_at = CURRENT_TIMESTAMP d (clock c),
                 leveling_enabled = leveling_enabled_default\<rparr>]\<rparr>)"

definition updateBotStats :: "store_call \<Rightarrow> guild list \<Rightarrow> db \<Rightarrow> db" where
  "updateBotStats c guilds d =
     (let statsId = ''main_stats'';
          totalServers = length guilds;
          totalUsers = foldl (\<lambda>acc g. acc + memberCount g) 0 guilds
      in if throws c then d
         else d\<lparr>bot_stats := filter (\<lambda>r. bs_id r \<noteq> statsId) (bot_stats d) @
                  [\<lparr>bs_id = statsId, total_servers = totalServers, total_users = totalUsers,
                    last_restart = CURRENT_TIMESTAMP d (clock c),
                    recorded_at = CURRENT_TIMESTAMP d (clock c)\<rparr>]\<rparr>)"

text \<open>
  The \<^verbatim>\<open>guildCreate\<close> listener: the guild that was joined, the guild cache of the client at
  that moment, and the store's answers to the two statements.
\<close>

record join_env =
  config_call :: store_call
  stats_call :: store_call
  guilds_cache :: "guild list"

definition guildCreate :: "join_env \<Rightarrow> guild \<Rightarrow> db \<Rightarrow> db" where
  "guildCreate e g d =
     updateBotStats (stats_call e) (guilds_cache e) (createServerConfig (config_call e) g d)"

definition getServerConfig :: "store_call \<Rightarrow> string \<Rightarrow> db \<Rightarrow> server_config_row option" where
  "getServerConfig c serverId d =
     (if throws c then None
      else find (\<lambda>r. sc_server_id r = serverId) (server_configs d))"

subsection \<open>Experience and levels\<close>

text \<open>
  \<^verbatim>\<open>Math.random()\<close> is a number \<open>r\<close> with \<open>0 \<le> r < 1\<close>; the draw is an input. The award is
  \<^verbatim>\<open>Math.floor(Math.random() * 15) + 10\<close> and the level is
  \<^verbatim>\<open>Math.floor(0.1 * Math.sqrt(newXP))\<close>, both read over the reals. Experience, levels and
  message counts are natural numbers.
\<close>

definition xpToAward :: "real \<Rightarrow> nat" where
  "xpToAward r = nat (\<lfloor>r * 15\<rfloor> + 10)"

definition newLevel_of :: "nat \<Rightarrow> nat" where
  "newLevel_of newXP = nat \<lfloor>0.1 * sqrt (real newXP)\<rfloor>"

text \<open>
  The three statements of \<^verbatim>\<open>awardXP\<close>. \<^verbatim>\<open>first()\<close> yields the first row that matches; the
  UPDATE rewrites every row that matches; the INSERT appends a row of level 0 with one
  message sent.
\<close>

definition matches :: "string \<Rightarrow> string \<Rightarrow> user_level_row \<Rightarrow> bool" where
  "matches userId serverId r \<longleftrightarrow> ul_user_id r = userId \<and> ul_server_id r = serverId"

definition select_user_level :: "string \<Rightarrow> string \<Rightarrow> db \<Rightarrow> user_level_row option" where
  "select_user_level userId serverId d = find (matches userId serverId) (user_levels d)"

definition update_user_level :: "nat \<Rightarrow> nat \<Rightarrow> int \<Rightarrow> string \<Rightarrow> string \<Rightarrow> db \<Rightarrow> db" where
  "update_user_level newXP newLevel now userId serverId d =
     d\<lparr>user_levels :=
         map (\<lambda>r. if matches userId serverId r
                   then r\<lparr>xp := newXP, level := newLevel,
                          messages_sent := messages_sent r + 1, last_xp_gain := Some now\<rparr>
                   else r)
             (user_levels d)\<rparr>"

definition insert_user_level :: "int \<times> string \<Rightarrow> string \<Rightarrow> string \<Rightarrow> nat \<Rightarrow> int \<Rightarrow> db \<Rightarrow> db" where
  "insert_user_level rowId userId serverId award now d =
     d\<lparr>user_levels := user_levels d @
         [\<lparr>ul_id = rowId, ul_user_id = userId, ul_server_id = serverId, xp = award,
           level = 0, messages_sent = 1, last_xp_gain = Some now\<rparr>]\<rparr>"

text \<open>
  What one call of \<^verbatim>\<open>awardXP\<close> reads from outside: the draw, the store's answer to the
  SELECT, \<^verbatim>\<open>Date.now()\<close> at the cooldown check, the store's answer to the UPDATE or INSERT,
  and the parts of the identifier of a new row.
\<close>

record award_env =
  math_random :: real
  select_call :: store_call
  date_now :: int
  write_call :: store_call
  lvl_id_now :: int
  lvl_id_random :: string

text \<open>The one reply \<^verbatim>\<open>awardXP\<close> sends: the congratulation, to its author, on a level.\<close>

datatype reply = Congratulations string nat

text \<open>
  \<^verbatim>\<open>awardXP\<close> returns the store it leaves and the replies it sends. The whole body stands
  in a \<^verbatim>\<open>try\<close>: a message without a guild or a statement the store rejects ends the call
  there. A stored \<^verbatim>\<open>last_xp_gain\<close> that is NULL is falsy, so the cooldown is not checked.
\<close>

definition awardXP :: "award_env \<Rightarrow> message \<Rightarrow> db \<Rightarrow> db \<times> reply list" where
  "awardXP e m d =
     (case msg_guild m of
        None \<Rightarrow> (d, [])
      | Some serverId \<Rightarrow>
          (let userId = author_id m;
               award = xpToAward (math_random e)
           in if throws (select_call e) then (d, [])
              else
                (let existing = select_user_level userId serverId d
                 in if (case existing of
                          None \<Rightarrow> False
                        | Some row \<Rightarrow>
                            (case last_xp_gain row of
                               None \<Rightarrow> False
                             | Some lastGain \<Rightarrow> date_now e - lastGain < 60000))
                    then (d, [])
                    else
                      (case existing of
                         Some row \<Rightarrow>
                           (let newXP = xp row + award;
                                newLevel = newLevel_of newXP;
                                leveledUp = newLevel > level row
                            in if throws (write_call e) then (d, [])
                               else (update_user_level newXP newLevel
                                       (CURRENT_TIMESTAMP d (clock (write_call e)))
                                       userId serverId d,
                                     if leveledUp then [Congratulations userId newLevel]
                                     else []))
                       | None \<Rightarrow>
                           (let rowId = (lvl_id_now e, lvl_id_random e)
                            in if throws (write_call e) then (d, [])
                               else (insert_user_level rowId userId serverId award
                                       (CURRENT_TIMESTAMP d (clock (write_call e))) d,
                                     []))))))"

text \<open>
  The \<^verbatim>\<open>messageCreate\<close> listener: messages of bots and messages outside a guild are
  dropped, then the server's configuration decides.
\<close>

record message_env =
  config_select :: store_call
  award_reads :: award_env

definition messageCreate :: "message_env \<Rightarrow> message \<Rightarrow> db \<Rightarrow> db \<times> reply list" where
  "messageCreate e m d =
     (if author_bot m then (d, [])
      else case msg_guild m of
             None \<Rightarrow> (d, [])
           | Some serverId \<Rightarrow>
               (case getServerConfig (config_select e) serverId d of
                  None \<Rightarrow> (d, [])
                | Some config \<Rightarrow>
                    if leveling_enabled config = 0 then (d, [])
                    else awardXP (award_reads e) m d))"

text \<open>
  Awards in sequence: each message is handled to its end before the next one arrives.
  \<open>awards_recorded userId serverId\<close> lists, in order, the timestamp written by every call
  that changed the rows of the pair.
\<close>

definition rows_of :: "string \<Rightarrow> string \<Rightarrow> db \<Rightarrow> user_level_row list" where
  "rows_of userId serverId d = filter (matches userId serverId) (user_levels d)"

fun awards_recorded :: "string \<Rightarrow> string \<Rightarrow> (award_env \<times> message) list \<Rightarrow> db \<Rightarrow> int list" where
  "awards_recorded userId serverId [] d = []"
| "awards_recorded userId serverId ((e, m) # rest) d =
     (let d' = fst (awardXP e m d)
      in (if rows_of userId serverId d' = rows_of userId serverId d then []
          else [CURRENT_TIMESTAMP d (clock (write_call e))])
         @ awards_recorded userId serverId rest d')"

section \<open>Example inputs\<close>

text \<open>
  A store with no rows that keeps whole seconds, a statement the store accepts at clock
  \<open>t\<close>, one it rejects, and a member of one guild who writes messages.
\<close>

definition empty_store :: db where
  "empty_store = \<lparr>server_configs = [], command_usage = [], bot_stats = [], user_levels = [],
                   resolution = 1000\<rparr>"

definition accepted :: "int \<Rightarrow> store_call" where
  "accepted t = \<lparr>throws = False, clock = t\<rparr>"

definition rejected :: store_call where
  "rejected = \<lparr>throws = True, clock = 0\<rparr>"

definition alice_message :: message where
  "alice_message = \<lparr>author_id = ''alice'', author_bot = False, msg_guild = Some ''guild1''\<rparr>"

definition alice_row :: "nat \<Rightarrow> nat \<Rightarrow> int option \<Rightarrow> user_level_row" where
  "alice_row x l t = \<lparr>ul_id = (0, ''a''), ul_user_id = ''alice'', ul_server_id = ''guild1'',
                       xp = x, level = l, messages_sent = 7, last_xp_gain = t\<rparr>"

definition store_with :: "user_level_row \<Rightarrow> db" where
  "store_with row = empty_store\<lparr>user_levels := [row]\<rparr>"

definition draw_at :: "real \<Rightarrow> int \<Rightarrow> award_env" where
  "draw_at r t = \<lparr>math_random = r, select_call = accepted t, date_now = t,
                   write_call = accepted t, lvl_id_now = t, lvl_id_random = ''k3j9x0q2m''\<rparr>"


text \<open>
  Two messages of the same member, 59 seconds apart, on a store whose clock is one
  millisecond behind \<^verbatim>\<open>Date.now()\<close>; and four messages of the same member, of which the
  first and the third arrive within the minute after an award, the second and the fourth
  later.
\<close>

definition draw_behind :: "real \<Rightarrow> int \<Rightarrow> award_env" where
  "draw_behind r t = \<lparr>math_random = r, select_call = accepted t, date_now = t,
                       write_call = accepted (t - 1), lvl_id_now = t,
                       lvl_id_random = ''k3j9x0q2m''\<rparr>"

definition behind_events :: "(award_env \<times> message) list" where
  "behind_events =
     [(draw_behind (1 / 2) 100000, alice_message), (draw_behind (1 / 2) 159000, alice_message)]"

definition cooldown_events :: "(award_env \<times> message) list" where
  "cooldown_events =
     [(draw_at (1 / 2) 100000, alice_message), (draw_at (1 / 2) 130500, alice_message),
      (draw_at 0 150000, alice_message), (draw_at (7 / 10) 190999, alice_message)]"

text \<open>
  An interaction that names the command \<^verbatim>\<open>ping\<close>; a command that throws \<^verbatim>\<open>boom\<close> at once, one
  that throws it after a first reply, one that throws \<^verbatim>\<open>undefined\<close>, one that defers and
  throws a string, and one that replies and returns; registries with and without them;
  the readings of a call of \<^verbatim>\<open>logCommandUsage\<close> at time \<open>t\<close>.
\<close>

definition ping_interaction :: interaction where
  "ping_interaction = \<lparr>commandName = ''ping'', guildId = Some ''guild1'', user_id = ''alice'',
                         createdTimestamp = 99000, replied = False, deferred = False\<rparr>"

definition boom :: command where
  "boom i d = (Some (Error ''boom''), i, d)"

definition boom_after_reply :: command where
  "boom_after_reply i d = (Some (Error ''boom''), i\<lparr>replied := True\<rparr>, d)"

definition throws_undefined :: command where
  "throws_undefined i d = (Some Undefined, i, d)"

definition throws_text :: command where
  "throws_text i d = (Some Value, i\<lparr>deferred := True\<rparr>, d)"

definition pong :: command where
  "pong i d = (None, i\<lparr>replied := True\<rparr>, d)"

definition no_commands :: commands where
  "no_commands = Map.empty"

definition registry :: "command \<Rightarrow> commands" where
  "registry command = registerCommand ''ping'' command no_commands"

definition log_at :: "int \<Rightarrow> log_env" where
  "log_at t = \<lparr>log_id_now = t, log_id_random = ''k3j9x0q2m'', log_now = t,
                log_insert = accepted t\<rparr>"

definition log_rejected :: log_env where
  "log_rejected = \<lparr>log_id_now = 100000, log_id_random = ''k3j9x0q2m'', log_now = 100000,
                    log_insert = rejected\<rparr>"

definition dispatch_ok :: dispatch_env where
  "dispatch_ok = \<lparr>first_log = log_at 100000, second_log = log_at 100250, reply_error = None\<rparr>"

definition dispatch_unlogged :: dispatch_env where
  "dispatch_unlogged = \<lparr>first_log = log_rejected, second_log = log_rejected, reply_error = None\<rparr>"

definition dispatch_reply_fails :: dispatch_env where
  "dispatch_reply_fails = \<lparr>first_log = log_at 100000, second_log = log_at 100250,
                             reply_error = Some (Error ''Unknown interaction'')\<rparr>"

text \<open>A guild joined twice, under a new name the second time, and the store's answers.\<close>

definition guild1 :: guild where
  "guild1 = \<lparr>guild_id = ''guild1'', guild_name = ''Quantum'', memberCount = 12\<rparr>"

definition guild1_renamed :: guild where
  "guild1_renamed = \<lparr>guild_id = ''guild1'', guild_name = ''Quantum II'', memberCount = 15\<rparr>"

definition join_at :: "int \<Rightarrow> guild \<Rightarrow> join_env" where
  "join_at t g = \<lparr>config_call = accepted t, stats_call = accepted t, guilds_cache = [g]\<rparr>"

definition guild1_config :: server_config_row where
  "guild1_config = \<lparr>sc_server_id = ''guild1'', sc_server_name = ''Quantum'',
                      sc_created_at = 5000, leveling_enabled = 1\<rparr>"

definition message_at :: "real \<Rightarrow> int \<Rightarrow> message_env" where
  "message_at r t = \<lparr>config_select = accepted t, award_reads = draw_at r t\<rparr>"

text \<open>A store that holds the configuration of the guild and one row of the member.\<close>

definition configured_store :: "user_level_row \<Rightarrow> db" where
  "configured_store row = empty_store\<lparr>server_configs := [guild1_config], user_levels := [row]\<rparr>"

section \<open>Arithmetic of awards and levels\<close>

lemma xpToAward_bounds:
  assumes "0 \<le> r" and "r < 1"
  shows "10 \<le> xpToAward r \<and> xpToAward r \<le> 24"
proof -
  from assms have "0 \<le> r * 15" and "r * 15 < 15" by simp_all
  then have "0 \<le> \<lfloor>r * 15\<rfloor>" and "\<lfloor>r * 15\<rfloor> < 15"
    by (simp_all add: floor_less_iff)
  then show ?thesis unfolding xpToAward_def by linarith
qed

lemma newLevel_of_eq_iff:
  "newLevel_of x = k \<longleftrightarrow> 100 * k * k \<le> x \<and> x < 100 * (k + 1) * (k + 1)"
proof -
  have nn: "0 \<le> 0.1 * sqrt (real x)" by simp
  have "newLevel_of x = k \<longleftrightarrow> \<lfloor>0.1 * sqrt (real x)\<rfloor> = int k"
    using nn unfolding newLevel_of_def by (metis nat_int zero_le_floor int_nat_eq)
  also have "\<dots> \<longleftrightarrow> real k \<le> 0.1 * sqrt (real x) \<and> 0.1 * sqrt (real x) < real k + 1"
    by (simp add: floor_eq_iff)
  also have "\<dots> \<longleftrightarrow> real (10 * k) \<le> sqrt (real x) \<and> sqrt (real x) < real (10 * (k + 1))"
    by auto
  also have "\<dots> \<longleftrightarrow> (real (10 * k))\<^sup>2 \<le> real x \<and> real x < (real (10 * (k + 1)))\<^sup>2"
  proof -
    have lower: "real (10 * k) \<le> sqrt (real x) \<longleftrightarrow> (real (10 * k))\<^sup>2 \<le> real x"
      by (metis of_nat_0_le_iff real_sqrt_le_iff real_sqrt_abs abs_of_nonneg)
    have upper: "sqrt (real x) < real (10 * (k + 1)) \<longleftrightarrow> real x < (real (10 * (k + 1)))\<^sup>2"
      by (metis of_nat_0_le_iff real_sqrt_less_iff real_sqrt_abs abs_of_nonneg)
    show ?thesis using lower upper by simp
  qed
  also have "\<dots> \<longleftrightarrow> 100 * k * k \<le> x \<and> x < 100 * (k + 1) * (k + 1)"
  proof -
    have lower: "(real (10 * k))\<^sup>2 = real (100 * k * k)"
      by (simp add: power2_eq_square)
    have upper: "(real (10 * (k + 1)))\<^sup>2 = real (100 * (k + 1) * (k + 1))"
      by (simp add: power2_eq_square algebra_simps)
    show ?thesis unfolding lower upper by (simp only: of_nat_le_iff of_nat_less_iff)
  qed
  finally show ?thesis .
qed

section \<open>The statements of awardXP on the rows of one pair\<close>

lemma awardXP_resolution: "resolution (fst (awardXP e m d)) = resolution d"
  by (simp add: awardXP_def update_user_level_def insert_user_level_def Let_def
      split: option.splits)

lemma find_filter: "find P xs = (case filter P xs of [] \<Rightarrow> None | x # _ \<Rightarrow> Some x)"
  by (induction xs) auto

lemma select_rows_of:
  "select_user_level u s d = (case rows_of u s d of [] \<Rightarrow> None | x # _ \<Rightarrow> Some x)"
  by (simp add: select_user_level_def rows_of_def find_filter)


lemma filter_map_if_same:
  assumes "\<And>r. P (f r) = P r"
  shows "filter P (map (\<lambda>r. if P r then f r else r) xs) = map f (filter P xs)"
  using assms by (induction xs) simp_all

lemma filter_map_if_other:
  assumes "\<And>r. Q r \<Longrightarrow> \<not> P r \<and> \<not> P (f r)"
  shows "filter P (map (\<lambda>r. if Q r then f r else r) xs) = filter P xs"
  using assms by (induction xs) auto

lemma rows_of_update:
  "rows_of u s (update_user_level x l t u' s' d) =
     (if u' = u \<and> s' = s
      then map (\<lambda>r. r\<lparr>xp := x, level := l, messages_sent := messages_sent r + 1,
                       last_xp_gain := Some t\<rparr>) (rows_of u s d)
      else rows_of u s d)"
proof (cases "u' = u \<and> s' = s")
  case True
  have "filter (matches u s)
          (map (\<lambda>r. if matches u s r
                     then r\<lparr>xp := x, level := l, messages_sent := messages_sent r + 1,
                            last_xp_gain := Some t\<rparr>
                     else r) (user_levels d)) =
        map (\<lambda>r. r\<lparr>xp := x, level := l, messages_sent := messages_sent r + 1,
                     last_xp_gain := Some t\<rparr>) (filter (matches u s) (user_levels d))"
    by (rule filter_map_if_same) (simp add: matches_def)
  with True show ?thesis
    by (simp add: rows_of_def update_user_level_def)
next
  case False
  have "filter (matches u s)
          (map (\<lambda>r. if matches u' s' r
                     then r\<lparr>xp := x, level := l, messages_sent := messages_sent r + 1,
                            last_xp_gain := Some t\<rparr>
                     else r) (user_levels d)) =
        filter (matches u s) (user_levels d)"
    by (rule filter_map_if_other) (use False in \<open>auto simp add: matches_def\<close>)
  with False show ?thesis
    by (auto simp add: rows_of_def update_user_level_def)
qed

lemma rows_of_insert:
  "rows_of u s (insert_user_level rid u' s' a t d) =
     rows_of u s d @
     (if u' = u \<and> s' = s
      then [\<lparr>ul_id = rid, ul_user_id = u', ul_server_id = s', xp = a, level = 0,
             messages_sent = 1, last_xp_gain = Some t\<rparr>]
      else [])"
  by (auto simp add: rows_of_def insert_user_level_def matches_def)

text \<open>The three ways a call of awardXP can end.\<close>

lemma awardXP_cases:
  assumes "msg_guild m = Some s"
  obtains
    (noop) "awardXP e m d = (d, [])"
  | (update) row where "select_user_level (author_id m) s d = Some row"
      and "case last_xp_gain row of None \<Rightarrow> True | Some t \<Rightarrow> t + 60000 \<le> date_now e"
      and "\<not> throws (select_call e)" and "\<not> throws (write_call e)"
      and "awardXP e m d =
            (update_user_level (xp row + xpToAward (math_random e))
               (newLevel_of (xp row + xpToAward (math_random e)))
               (CURRENT_TIMESTAMP d (clock (write_call e))) (author_id m) s d,
             if newLevel_of (xp row + xpToAward (math_random e)) > level row
             then [Congratulations (author_id m) (newLevel_of (xp row + xpToAward (math_random e)))]
             else [])"
  | (insert) "select_user_level (author_id m) s d = None"
      and "\<not> throws (select_call e)" and "\<not> throws (write_call e)"
      and "awardXP e m d =
            (insert_user_level (lvl_id_now e, lvl_id_random e) (author_id m) s
               (xpToAward (math_random e)) (CURRENT_TIMESTAMP d (clock (write_call e))) d, [])"
proof (cases "throws (select_call e) \<or> throws (write_call e)")
  case True
  then have "awardXP e m d = (d, [])"
    using assms by (auto simp add: awardXP_def Let_def split: option.splits)
  then show ?thesis by (rule noop)
next
  case ok: False
  show ?thesis
  proof (cases "select_user_level (author_id m) s d")
    case None
    with ok assms show ?thesis by (intro insert) (simp_all add: awardXP_def Let_def)
  next
    case (Some row)
    show ?thesis
    proof (cases "case last_xp_gain row of None \<Rightarrow> True | Some t \<Rightarrow> t + 60000 \<le> date_now e")
      case True
      with ok assms Some show ?thesis
        by (intro update [of row]) (auto simp add: awardXP_def Let_def split: option.splits)
    next
      case False
      with assms Some have "awardXP e m d = (d, [])"
        by (auto simp add: awardXP_def Let_def split: option.splits)
      then show ?thesis by (rule noop)
    qed
  qed
qed

lemma awardXP_other_pair:
  assumes "msg_guild m \<noteq> Some s \<or> author_id m \<noteq> u"
  shows "rows_of u s (fst (awardXP e m d)) = rows_of u s d"
proof (cases "msg_guild m")
  case None
  then show ?thesis by (simp add: awardXP_def)
next
  case (Some s')
  then show ?thesis
    using assms by (cases rule: awardXP_cases [OF Some, of e d]) (auto simp add: rows_of_update rows_of_insert)
qed


lemma awardXP_changed:
  assumes changed: "rows_of u s (fst (awardXP e m d)) \<noteq> rows_of u s d"
  obtains r' rs' where "rows_of u s (fst (awardXP e m d)) = r' # rs'"
    and "last_xp_gain r' = Some (CURRENT_TIMESTAMP d (clock (write_call e)))"
    and "case rows_of u s d of
           [] \<Rightarrow> True
         | r # _ \<Rightarrow> (case last_xp_gain r of None \<Rightarrow> True | Some t \<Rightarrow> t + 60000 \<le> date_now e)"
proof -
  from changed have pair: "msg_guild m = Some s" "author_id m = u"
    using awardXP_other_pair [of m s u e d] by auto
  from pair(1) show ?thesis
  proof (cases rule: awardXP_cases [where e = e and d = d])
    case noop
    with changed show ?thesis by simp
  next
    case (update row)
    from update(1) pair obtain rs where rows: "rows_of u s d = row # rs"
      by (auto simp add: select_rows_of split: list.splits)
    show ?thesis
      by (rule that [of "row\<lparr>xp := xp row + xpToAward (math_random e),
                            level := newLevel_of (xp row + xpToAward (math_random e)),
                            messages_sent := messages_sent row + 1,
                            last_xp_gain := Some (CURRENT_TIMESTAMP d (clock (write_call e)))\<rparr>"])
        (use update pair rows in \<open>simp_all add: rows_of_update\<close>)
  next
    case insert
    from insert(1) pair have rows: "rows_of u s d = []"
      by (auto simp add: select_rows_of split: list.splits)
    have "rows_of u s (fst (awardXP e m d)) =
            [\<lparr>ul_id = (lvl_id_now e, lvl_id_random e), ul_user_id = u, ul_server_id = s,
              xp = xpToAward (math_random e), level = 0, messages_sent = 1,
              last_xp_gain = Some (CURRENT_TIMESTAMP d (clock (write_call e)))\<rparr>]"
      using insert pair rows by (simp add: rows_of_insert)
    then show ?thesis
      by (rule that) (use rows in simp_all)
  qed
qed

lemma truncate_lower:
  fixes g a t :: int
  assumes "0 < g" and "g dvd a" and "a \<le> t"
  shows "a \<le> (t div g) * g"
proof -
  from \<open>g dvd a\<close> obtain k where a: "a = g * k" ..
  from \<open>a \<le> t\<close> \<open>0 < g\<close> have "a div g \<le> t div g" by (rule zdiv_mono1)
  with a \<open>0 < g\<close> have "k \<le> t div g" by simp
  with \<open>0 < g\<close> have "k * g \<le> (t div g) * g" by simp
  with a show ?thesis by (simp add: mult.commute)
qed

lemma awards_recorded_after:
  assumes "0 < resolution d" and "resolution d dvd 60000"
    and "\<forall>(e, m) \<in> set es. date_now e \<le> clock (write_call e)"
    and "rows_of u s d = r # rs" and "last_xp_gain r = Some L" and "resolution d dvd L"
  shows "(\<forall>x \<in> set (awards_recorded u s es d). L + 60000 \<le> x) \<and>
         sorted_wrt (\<lambda>a b. 60000 \<le> b - a) (awards_recorded u s es d)"
  using assms
proof (induction es arbitrary: d r rs L)
  case Nil
  then show ?case by simp
next
  case (Cons em es)
  obtain e m where em: "em = (e, m)" by (cases em)
  define d' where "d' = fst (awardXP e m d)"
  have res: "resolution d' = resolution d" by (simp add: d'_def awardXP_resolution)
  from Cons.prems(3) em have clocks: "\<forall>(e, m) \<in> set es. date_now e \<le> clock (write_call e)"
    and now: "date_now e \<le> clock (write_call e)" by simp_all
  show ?case
  proof (cases "rows_of u s d' = rows_of u s d")
    case True
    have "(\<forall>x \<in> set (awards_recorded u s es d'). L + 60000 \<le> x) \<and>
          sorted_wrt (\<lambda>a b. 60000 \<le> b - a) (awards_recorded u s es d')"
      by (rule Cons.IH [of d' r rs L]) (use Cons.prems res clocks True in simp_all)
    with True show ?thesis by (simp add: em d'_def [symmetric])
  next
    case False
    then obtain r' rs' where rows': "rows_of u s d' = r' # rs'"
      and stamp: "last_xp_gain r' = Some (CURRENT_TIMESTAMP d (clock (write_call e)))"
      and gate: "case rows_of u s d of
                   [] \<Rightarrow> True
                 | r # _ \<Rightarrow> (case last_xp_gain r of None \<Rightarrow> True | Some t \<Rightarrow> t + 60000 \<le> date_now e)"
      unfolding d'_def by (rule awardXP_changed)
    let ?ts = "CURRENT_TIMESTAMP d (clock (write_call e))"
    from gate Cons.prems(4,5) have "L + 60000 \<le> date_now e" by simp
    with now have "L + 60000 \<le> clock (write_call e)" by simp
    moreover have "resolution d dvd L + 60000" using Cons.prems(2,6) by simp
    ultimately have ts: "L + 60000 \<le> ?ts"
      unfolding CURRENT_TIMESTAMP_def using Cons.prems(1) by (intro truncate_lower)
    have dvd: "resolution d' dvd ?ts" by (simp add: res CURRENT_TIMESTAMP_def)
    have "(\<forall>x \<in> set (awards_recorded u s es d'). ?ts + 60000 \<le> x) \<and>
          sorted_wrt (\<lambda>a b. 60000 \<le> b - a) (awards_recorded u s es d')"
      by (rule Cons.IH [of d' r' rs' ?ts]) (use Cons.prems res clocks rows' stamp dvd in simp_all)
    with False ts show ?thesis by (auto simp add: em d'_def [symmetric])
  qed
qed

lemma awards_recorded_apart:
  assumes "0 < resolution d" and "resolution d dvd 60000"
    and "\<forall>(e, m) \<in> set es. date_now e \<le> clock (write_call e)"
  shows "sorted_wrt (\<lambda>a b. 60000 \<le> b - a) (awards_recorded u s es d)"
  using assms
proof (induction es arbitrary: d)
  case Nil
  then show ?case by simp
next
  case (Cons em es)
  obtain e m where em: "em = (e, m)" by (cases em)
  define d' where "d' = fst (awardXP e m d)"
  have res: "resolution d' = resolution d" by (simp add: d'_def awardXP_resolution)
  from Cons.prems(3) em have clocks: "\<forall>(e, m) \<in> set es. date_now e \<le> clock (write_call e)"
    by simp
  show ?case
  proof (cases "rows_of u s d' = rows_of u s d")
    case True
    have "sorted_wrt (\<lambda>a b. 60000 \<le> b - a) (awards_recorded u s es d')"
      by (rule Cons.IH) (use Cons.prems res clocks in simp_all)
    with True show ?thesis by (simp add: em d'_def [symmetric])
  next
    case False
    then obtain r' rs' where rows': "rows_of u s d' = r' # rs'"
      and stamp: "last_xp_gain r' = Some (CURRENT_TIMESTAMP d (clock (write_call e)))"
      unfolding d'_def by (rule awardXP_changed)
    let ?ts = "CURRENT_TIMESTAMP d (clock (write_call e))"
    have dvd: "resolution d' dvd ?ts" by (simp add: res CURRENT_TIMESTAMP_def)
    have "(\<forall>x \<in> set (awards_recorded u s es d'). ?ts + 60000 \<le> x) \<and>
          sorted_wrt (\<lambda>a b. 60000 \<le> b - a) (awards_recorded u s es d')"
      by (rule awards_recorded_after [of d' es u s r' rs' ?ts])
        (use Cons.prems res clocks rows' stamp dvd in simp_all)
    with False show ?thesis by (auto simp add: em d'_def [symmetric])
  qed
qed

lemma update_user_level_select:
  assumes "select_user_level u s d = Some row"
  shows "select_user_level u s (update_user_level x l t u s d) =
           Some (row\<lparr>xp := x, level := l, messages_sent := messages_sent row + 1,
                     last_xp_gain := Some t\<rparr>)"
proof -
  from assms obtain rs where "rows_of u s d = row # rs"
    by (auto simp add: select_rows_of split: list.splits)
  then show ?thesis by (simp add: select_rows_of rows_of_update)
qed

section \<open>The server configurations under a join\<close>

lemma updateBotStats_server_configs:
  "server_configs (updateBotStats c guilds d) = server_configs d"
  by (simp add: updateBotStats_def Let_def)

lemma createServerConfig_present:
  assumes "guild_id g \<in> set (map sc_server_id (server_configs d))"
  shows "createServerConfig c g d = d"
  using assms by (simp add: createServerConfig_def)

lemma createServerConfig_accepted:
  assumes "\<not> throws c"
  shows "guild_id g \<in> set (map sc_server_id (server_configs (createServerConfig c g d)))"
  using assms by (simp add: createServerConfig_def)

lemma createServerConfig_distinct:
  assumes "distinct (map sc_server_id (server_configs d))"
  shows "distinct (map sc_server_id (server_configs (createServerConfig c g d)))"
  using assms by (simp add: createServerConfig_def)

lemma one_row_of_key:
  assumes "distinct (map f xs)" and "k \<in> set (map f xs)"
  shows "length (filter (\<lambda>r. f r = k) xs) = 1"
  using assms
proof (induction xs)
  case Nil
  then show ?case by simp
next
  case (Cons x xs)
  show ?case
  proof (cases "f x = k")
    case True
    with Cons.prems(1) have "filter (\<lambda>r. f r = k) xs = []"
      by (force simp add: filter_empty_conv image_iff)
    with True show ?thesis by simp
  next
    case False
    with Cons show ?thesis by simp
  qed
qed

lemma guildCreate_server_configs:
  "server_configs (guildCreate e g d) = server_configs (createServerConfig (config_call e) g d)"
  by (simp add: guildCreate_def updateBotStats_server_configs)

section \<open>Evaluating the examples\<close>

lemma example_draws:
  "xpToAward (1 / 2) = 17" "xpToAward (7 / 10) = 20" "xpToAward 0 = 10"
  by (simp_all add: xpToAward_def)

lemma example_levels:
  "newLevel_of 112 = 1" "newLevel_of 100 = 1" "newLevel_of 97 = 0"
  by (simp_all add: newLevel_of_eq_iff)

lemmas example_defs =
  empty_store_def accepted_def rejected_def alice_message_def alice_row_def store_with_def
  draw_at_def draw_behind_def ping_interaction_def boom_def boom_after_reply_def
  throws_undefined_def throws_text_def pong_def no_commands_def
  registry_def registerCommand_def
  log_at_def log_rejected_def dispatch_ok_def dispatch_unlogged_def dispatch_reply_fails_def
  guild1_def guild1_renamed_def join_at_def guild1_config_def message_at_def
  configured_store_def

lemmas awardXP_unfold =
  awardXP_def Let_def select_user_level_def matches_def update_user_level_def
  insert_user_level_def CURRENT_TIMESTAMP_def rows_of_def

lemmas handleCommand_unfold =
  handleCommand_def logCommandUsage_def usage_row_def send_def Let_def CURRENT_TIMESTAMP_def

section \<open>The dispatch of a command\<close>

lemma logCommandUsage_accepted:
  assumes "\<not> throws (log_insert le)"
  shows "logCommandUsage le i d succ msg =
           (d\<lparr>command_usage := command_usage d @ [usage_row le i d succ msg]\<rparr>,
            [Insert_command_usage (usage_row le i d succ msg)])"
  using assms by (simp add: logCommandUsage_def Let_def)



lemma message_of_cases:
  obtains (message) msg where "message_of err = Inr msg" and "err \<noteq> Null" and "err \<noteq> Undefined"
  | (null) "err = Null"
  | (undefined) "err = Undefined"
  by (cases err) simp_all

text \<open>
  C1. The claim has exactly one row written per resolved invocation, after the handler.
  The code writes a row before \<^verbatim>\<open>execute\<close> and another in the \<^verbatim>\<open>catch\<close> block. When the name
  resolves and the store accepts the INSERTs, the handler runs on a store that already
  holds a row with success 1 and no error message; the effects are that row, the run of
  the handler and, when the handler throws a value whose message can be read, a second
  row with success 0 and that message (NULL when the value has none), then the notice.
  So a handler that returns leaves one row and a handler that throws an error leaves
  two. When the handler throws \<^verbatim>\<open>null\<close> or \<^verbatim>\<open>undefined\<close> nothing follows the run.
\<close>

theorem handleCommand_audit_rows:
  assumes "cs (commandName i) = Some command"
    and "\<not> throws (log_insert (first_log e))"
    and "\<not> throws (log_insert (second_log e))"
    and "command i (fst (logCommandUsage (first_log e) i d True None)) = (thrown, i', d2)"
  shows "fst (logCommandUsage (first_log e) i d True None) =
           d\<lparr>command_usage := command_usage d @ [usage_row (first_log e) i d True None]\<rparr>
         \<and> snd (snd (handleCommand cs e i d)) =
           [Insert_command_usage (usage_row (first_log e) i d True None),
            Execute (commandName i)] @
           (case thrown of
              None \<Rightarrow> []
            | Some err \<Rightarrow>
                (case message_of err of
                   Inl typeError \<Rightarrow> []
                 | Inr msg \<Rightarrow>
                     [Insert_command_usage (usage_row (second_log e) i' d2 False msg),
                      if replied i' \<or> deferred i' then FollowUp errorMessage
                      else Reply errorMessage]))
         \<and> rows_written (snd (snd (handleCommand cs e i d))) =
           usage_row (first_log e) i d True None #
           (case thrown of
              None \<Rightarrow> []
            | Some err \<Rightarrow>
                (case message_of err of
                   Inl typeError \<Rightarrow> []
                 | Inr msg \<Rightarrow> [usage_row (second_log e) i' d2 False msg]))
         \<and> success (usage_row (first_log e) i d True None) = 1
         \<and> error_message (usage_row (first_log e) i d True None) = None
         \<and> success (usage_row (second_log e) i' d2 False msg) = 0
         \<and> error_message (usage_row (second_log e) i' d2 False msg) = msg
         \<and> message_of (Error m) = Inr (Some m)"
proof -
  note first = logCommandUsage_accepted [OF assms(2), of i d True None]
  note second = logCommandUsage_accepted [OF assms(3), of i' d2 False]
  from assms(4) first have run: "command i
      (d\<lparr>command_usage := command_usage d @ [usage_row (first_log e) i d True None]\<rparr>) =
      (thrown, i', d2)" by simp
  have effects: "snd (snd (handleCommand cs e i d)) =
           [Insert_command_usage (usage_row (first_log e) i d True None),
            Execute (commandName i)] @
           (case thrown of
              None \<Rightarrow> []
            | Some err \<Rightarrow>
                (case message_of err of
                   Inl typeError \<Rightarrow> []
                 | Inr msg \<Rightarrow>
                     [Insert_command_usage (usage_row (second_log e) i' d2 False msg),
                      if replied i' \<or> deferred i' then FollowUp errorMessage
                      else Reply errorMessage]))"
    using assms(1) run
    by (simp add: handleCommand_def first second split: option.splits sum.splits)
  have rows: "rows_written (snd (snd (handleCommand cs e i d))) =
           usage_row (first_log e) i d True None #
           (case thrown of
              None \<Rightarrow> []
            | Some err \<Rightarrow>
                (case message_of err of
                   Inl typeError \<Rightarrow> []
                 | Inr msg \<Rightarrow> [usage_row (second_log e) i' d2 False msg]))"
    unfolding effects by (simp split: option.splits sum.splits)
  have fields: "success (usage_row le j b True m) = 1" "success (usage_row le j b False m) = 0"
    "error_message (usage_row le j b succ m) = m" for le j b succ m
    by (simp_all add: usage_row_def)
  from first effects rows fields show ?thesis
    by (simp only: fst_conv message_of.simps simp_thms)
qed

text \<open>The command that throws \<^verbatim>\<open>boom\<close> leaves two rows, the command that returns leaves one.\<close>

theorem handleCommand_audit_rows_witness:
  "registry boom (commandName ping_interaction) = Some boom \<and>
   \<not> throws (log_insert (first_log dispatch_ok)) \<and>
   \<not> throws (log_insert (second_log dispatch_ok)) \<and>
   boom ping_interaction (fst (logCommandUsage (first_log dispatch_ok) ping_interaction empty_store True None))
     = (Some (Error ''boom''), ping_interaction,
        fst (logCommandUsage (first_log dispatch_ok) ping_interaction empty_store True None)) \<and>
   rows_written (snd (snd (handleCommand (registry boom) dispatch_ok ping_interaction empty_store))) =
     [usage_row (first_log dispatch_ok) ping_interaction empty_store True None,
      usage_row (second_log dispatch_ok) ping_interaction
        (fst (logCommandUsage (first_log dispatch_ok) ping_interaction empty_store True None))
        False (Some ''boom'')] \<and>
   registry pong (commandName ping_interaction) = Some pong \<and>
   rows_written (snd (snd (handleCommand (registry pong) dispatch_ok ping_interaction empty_store))) =
     [usage_row (first_log dispatch_ok) ping_interaction empty_store True None]"
proof -
  let ?d1 = "fst (logCommandUsage (first_log dispatch_ok) ping_interaction empty_store True None)"
  have reg: "registry boom (commandName ping_interaction) = Some boom"
    "registry pong (commandName ping_interaction) = Some pong"
    by (simp_all add: example_defs)
  have ok: "\<not> throws (log_insert (first_log dispatch_ok))"
    "\<not> throws (log_insert (second_log dispatch_ok))"
    by (simp_all add: example_defs)
  have run: "boom ping_interaction ?d1 = (Some (Error ''boom''), ping_interaction, ?d1)"
    by (simp add: boom_def)
  have run': "pong ping_interaction ?d1 = (None, ping_interaction\<lparr>replied := True\<rparr>, ?d1)"
    by (simp add: pong_def)
  note boom_rows = handleCommand_audit_rows [where cs = "registry boom" and command = boom
      and e = dispatch_ok and i = ping_interaction and d = empty_store
      and thrown = "Some (Error ''boom'')" and i' = ping_interaction and ?d2.0 = ?d1
      and msg = "Some ''boom''" and m = "''boom''"]
  note pong_rows = handleCommand_audit_rows [where cs = "registry pong" and command = pong
      and e = dispatch_ok and i = ping_interaction and d = empty_store
      and thrown = None and i' = "ping_interaction\<lparr>replied := True\<rparr>" and ?d2.0 = ?d1
      and msg = "Some ''boom''" and m = "''boom''"]
  from boom_rows [OF reg(1) ok run, THEN conjunct2, THEN conjunct2, THEN conjunct1]
  have two: "rows_written
      (snd (snd (handleCommand (registry boom) dispatch_ok ping_interaction empty_store))) =
     [usage_row (first_log dispatch_ok) ping_interaction empty_store True None,
      usage_row (second_log dispatch_ok) ping_interaction ?d1 False (Some ''boom'')]"
    by simp
  from pong_rows [OF reg(2) ok run', THEN conjunct2, THEN conjunct2, THEN conjunct1]
  have one: "rows_written
      (snd (snd (handleCommand (registry pong) dispatch_ok ping_interaction empty_store))) =
     [usage_row (first_log dispatch_ok) ping_interaction empty_store True None]"
    by simp
  from reg ok run two one show ?thesis by simp
qed

text \<open>
  Against C1 as stated: with a working store the command that throws \<^verbatim>\<open>boom\<close> has two rows
  written, the first of them, with success 1, before the handler runs.
\<close>

theorem handleCommand_boom_two_rows:
  "snd (snd (handleCommand (registry boom) dispatch_ok ping_interaction empty_store)) =
     [Insert_command_usage
        \<lparr>cu_id = (100000, ''k3j9x0q2m''), command_name = ''ping'', cu_server_id = Some ''guild1'',
         cu_user_id = ''alice'', success = 1, execution_time = 1000, error_message = None,
         used_at = 100000\<rparr>,
      Execute ''ping'',
      Insert_command_usage
        \<lparr>cu_id = (100250, ''k3j9x0q2m''), command_name = ''ping'', cu_server_id = Some ''guild1'',
         cu_user_id = ''alice'', success = 0, execution_time = 1250,
         error_message = Some ''boom'', used_at = 100000\<rparr>,
      Reply errorMessage]
   \<and> length (rows_written
        (snd (snd (handleCommand (registry boom) dispatch_ok ping_interaction empty_store)))) = 2
   \<and> length (command_usage
        (fst (snd (handleCommand (registry boom) dispatch_ok ping_interaction empty_store)))) = 2"
  by (simp add: handleCommand_unfold example_defs)

text \<open>
  C3. The claim lets no exception leave \<^verbatim>\<open>handleCommand\<close>, a failing reply included. The
  replies of \<^verbatim>\<open>handleCommand\<close> stand outside every \<^verbatim>\<open>try\<close>. When the reply or follow-up it
  sends succeeds and the handler does not throw \<^verbatim>\<open>null\<close> or \<^verbatim>\<open>undefined\<close>, the call completes,
  whatever the name, the handler and the store do. When the name is not registered, or
  the handler throws another value, a reply is sent, and the error of a reply that fails
  leaves \<^verbatim>\<open>handleCommand\<close>.
\<close>

theorem handleCommand_completes:
  "(reply_error e = None \<and> thrown_by cs e i d \<noteq> Some Null \<and>
    thrown_by cs e i d \<noteq> Some Undefined
    \<longrightarrow> fst (handleCommand cs e i d) = Inr ())
   \<and>
   (reply_error e = Some err \<and> cs (commandName i) = None
    \<longrightarrow> fst (handleCommand cs e i d) = Inl err)
   \<and>
   (reply_error e = Some err \<and> thrown_by cs e i d = Some thrown \<and> thrown \<noteq> Null \<and>
    thrown \<noteq> Undefined
    \<longrightarrow> fst (handleCommand cs e i d) = Inl err)"
proof (intro conjI impI)
  assume h: "reply_error e = None \<and> thrown_by cs e i d \<noteq> Some Null \<and>
    thrown_by cs e i d \<noteq> Some Undefined"
  show "fst (handleCommand cs e i d) = Inr ()"
  proof (cases "cs (commandName i)")
    case None
    with h show ?thesis by (simp add: handleCommand_def send_def)
  next
    case (Some command)
    obtain d1 t1 where first: "logCommandUsage (first_log e) i d True None = (d1, t1)"
      by (cases "logCommandUsage (first_log e) i d True None")
    obtain thrown i' d2 where run: "command i d1 = (thrown, i', d2)"
      by (cases "command i d1")
    from Some first run have thrown: "thrown_by cs e i d = thrown"
      by (simp add: thrown_by_def)
    show ?thesis
    proof (cases thrown)
      case None
      with Some first run show ?thesis by (simp add: handleCommand_def)
    next
      case (Some x)
      with h thrown have "x \<noteq> Null" "x \<noteq> Undefined" by simp_all
      then obtain msg where "message_of x = Inr msg"
        by (cases x rule: message_of_cases) simp_all
      with h \<open>cs (commandName i) = Some command\<close> first run Some show ?thesis
        by (simp add: handleCommand_def send_def split: prod.splits)
    qed
  qed
next
  assume "reply_error e = Some err \<and> cs (commandName i) = None"
  then show "fst (handleCommand cs e i d) = Inl err"
    by (simp add: handleCommand_def send_def)
next
  assume h: "reply_error e = Some err \<and> thrown_by cs e i d = Some thrown \<and> thrown \<noteq> Null \<and>
    thrown \<noteq> Undefined"
  then obtain command where reg: "cs (commandName i) = Some command"
    by (cases "cs (commandName i)") (simp_all add: thrown_by_def)
  obtain d1 t1 where first: "logCommandUsage (first_log e) i d True None = (d1, t1)"
    by (cases "logCommandUsage (first_log e) i d True None")
  obtain i' d2 where run: "command i d1 = (Some thrown, i', d2)"
    using h reg first by (cases "command i d1") (simp add: thrown_by_def)
  from h obtain msg where "message_of thrown = Inr msg"
    by (cases thrown rule: message_of_cases) simp_all
  with h reg first run show "fst (handleCommand cs e i d) = Inl err"
    by (simp add: handleCommand_def send_def split: prod.splits)
qed

text \<open>
  With a reply that succeeds: an unknown name, a handler that throws \<^verbatim>\<open>boom\<close>, and a handler
  that throws a string while the store rejects both INSERTs. With a reply that fails: an
  unknown name and the handler that throws \<^verbatim>\<open>boom\<close>.
\<close>

theorem handleCommand_completes_witness:
  "reply_error dispatch_ok = None \<and>
   thrown_by no_commands dispatch_ok ping_interaction empty_store = None \<and>
   fst (handleCommand no_commands dispatch_ok ping_interaction empty_store) = Inr () \<and>
   thrown_by (registry boom) dispatch_ok ping_interaction empty_store = Some (Error ''boom'') \<and>
   fst (handleCommand (registry boom) dispatch_ok ping_interaction empty_store) = Inr () \<and>
   reply_error dispatch_unlogged = None \<and>
   thrown_by (registry throws_text) dispatch_unlogged ping_interaction empty_store = Some Value \<and>
   fst (handleCommand (registry throws_text) dispatch_unlogged ping_interaction empty_store)
     = Inr () \<and>
   reply_error dispatch_reply_fails = Some (Error ''Unknown interaction'') \<and>
   no_commands (commandName ping_interaction) = None \<and>
   fst (handleCommand no_commands dispatch_reply_fails ping_interaction empty_store)
     = Inl (Error ''Unknown interaction'') \<and>
   thrown_by (registry boom) dispatch_reply_fails ping_interaction empty_store
     = Some (Error ''boom'') \<and>
   fst (handleCommand (registry boom) dispatch_reply_fails ping_interaction empty_store)
     = Inl (Error ''Unknown interaction'')"
proof -
  have ok: "reply_error dispatch_ok = None" "reply_error dispatch_unlogged = None"
    "reply_error dispatch_reply_fails = Some (Error ''Unknown interaction'')"
    "no_commands (commandName ping_interaction) = None"
    by (simp_all add: example_defs)
  have thrown:
    "thrown_by no_commands dispatch_ok ping_interaction empty_store = None"
    "thrown_by (registry boom) dispatch_ok ping_interaction empty_store = Some (Error ''boom'')"
    "thrown_by (registry throws_text) dispatch_unlogged ping_interaction empty_store = Some Value"
    "thrown_by (registry boom) dispatch_reply_fails ping_interaction empty_store
       = Some (Error ''boom'')"
    by (simp_all add: thrown_by_def example_defs)
  note completes = handleCommand_completes [THEN conjunct1, rule_format]
  note unknown = handleCommand_completes [THEN conjunct2, THEN conjunct1, rule_format]
  note notice = handleCommand_completes [THEN conjunct2, THEN conjunct2, rule_format]
  have a: "fst (handleCommand no_commands dispatch_ok ping_interaction empty_store) = Inr ()"
    by (rule completes) (simp add: ok thrown)
  have b: "fst (handleCommand (registry boom) dispatch_ok ping_interaction empty_store) = Inr ()"
    by (rule completes) (simp add: ok thrown)
  have c: "fst (handleCommand (registry throws_text) dispatch_unlogged ping_interaction
      empty_store) = Inr ()"
    by (rule completes) (simp add: ok thrown)
  have d: "fst (handleCommand no_commands dispatch_reply_fails ping_interaction empty_store)
      = Inl (Error ''Unknown interaction'')"
    by (rule unknown) (simp add: ok)
  have e: "fst (handleCommand (registry boom) dispatch_reply_fails ping_interaction empty_store)
      = Inl (Error ''Unknown interaction'')"
    by (rule notice [where thrown = "Error ''boom''"]) (simp add: ok thrown)
  from ok thrown a b c d e show ?thesis by simp
qed

text \<open>
  Against C3 as stated: when the reply throws, its error leaves \<^verbatim>\<open>handleCommand\<close>, for an
  unknown name and for a handler that throws alike.
\<close>

theorem handleCommand_reply_fails:
  "fst (handleCommand no_commands dispatch_reply_fails ping_interaction empty_store) =
     Inl (Error ''Unknown interaction'')
   \<and> fst (handleCommand (registry boom) dispatch_reply_fails ping_interaction empty_store) =
     Inl (Error ''Unknown interaction'')"
  by (simp add: handleCommand_unfold example_defs)

text \<open>
  C8. When the name is not registered, the dispatch sends the ephemeral reply
  \<^verbatim>\<open>Command not found!\<close> and nothing else: the store is as it was, no row is written, and the
  result is the result of that one reply.
\<close>

theorem handleCommand_not_found:
  assumes "cs (commandName i) = None"
  shows "handleCommand cs e i d =
           (send e, d, [Reply \<lparr>content = ''Command not found!'', ephemeral = True\<rparr>])
         \<and> rows_written (snd (snd (handleCommand cs e i d))) = []
         \<and> command_usage (fst (snd (handleCommand cs e i d))) = command_usage d"
  using assms by (simp add: handleCommand_def not_found_def)

theorem handleCommand_not_found_witness:
  "no_commands (commandName ping_interaction) = None \<and>
   handleCommand no_commands dispatch_ok ping_interaction empty_store =
     (Inr (), empty_store, [Reply \<lparr>content = ''Command not found!'', ephemeral = True\<rparr>]) \<and>
   rows_written (snd (snd (handleCommand no_commands dispatch_ok ping_interaction empty_store))) = []"
proof -
  have none: "no_commands (commandName ping_interaction) = None"
    by (simp add: no_commands_def)
  have sent: "send dispatch_ok = Inr ()"
    by (simp add: send_def dispatch_ok_def)
  from handleCommand_not_found [where cs = no_commands and i = ping_interaction
      and e = dispatch_ok and d = empty_store, OF none] none sent
  show ?thesis by simp
qed




section \<open>The join of a guild\<close>

text \<open>
  C7. When the server identifiers of the table are distinct, as their uniqueness in the
  schema keeps them, and the store accepts the first INSERT, two runs of the
  \<^verbatim>\<open>guildCreate\<close> listener for one identifier leave exactly one row of that identifier, and
  the second run leaves every row of the table as the first run left it.
\<close>

theorem guildCreate_twice:
  assumes "distinct (map sc_server_id (server_configs d))"
    and "\<not> throws (config_call e1)"
    and "guild_id g2 = guild_id g1"
  shows "length (filter (\<lambda>r. sc_server_id r = guild_id g1)
                   (server_configs (guildCreate e2 g2 (guildCreate e1 g1 d)))) = 1
         \<and> server_configs (guildCreate e2 g2 (guildCreate e1 g1 d)) =
           server_configs (guildCreate e1 g1 d)"
proof -
  let ?d1 = "guildCreate e1 g1 d"
  have configs1: "server_configs ?d1 = server_configs (createServerConfig (config_call e1) g1 d)"
    by (rule guildCreate_server_configs)
  have present: "guild_id g2 \<in> set (map sc_server_id (server_configs ?d1))"
    unfolding configs1 assms(3) using assms(2) by (rule createServerConfig_accepted)
  have distinct1: "distinct (map sc_server_id (server_configs ?d1))"
    unfolding configs1 using assms(1) by (rule createServerConfig_distinct)
  have same: "server_configs (guildCreate e2 g2 ?d1) = server_configs ?d1"
    by (simp only: guildCreate_server_configs [of e2] createServerConfig_present [OF present])
  from distinct1 present have "length (filter (\<lambda>r. sc_server_id r = guild_id g1)
      (server_configs ?d1)) = 1"
    unfolding assms(3) by (rule one_row_of_key)
  with same show ?thesis by simp
qed

text \<open>The guild joins, is renamed and joins again: the row keeps the first name and time.\<close>

theorem guildCreate_twice_witness:
  "distinct (map sc_server_id (server_configs empty_store)) \<and>
   \<not> throws (config_call (join_at 5000 guild1)) \<and>
   guild_id guild1_renamed = guild_id guild1 \<and>
   server_configs (guildCreate (join_at 5000 guild1) guild1 empty_store) = [guild1_config] \<and>
   server_configs (guildCreate (join_at 90000 guild1_renamed) guild1_renamed
       (guildCreate (join_at 5000 guild1) guild1 empty_store)) = [guild1_config] \<and>
   length (filter (\<lambda>r. sc_server_id r = guild_id guild1)
     (server_configs (guildCreate (join_at 90000 guild1_renamed) guild1_renamed
       (guildCreate (join_at 5000 guild1) guild1 empty_store)))) = 1"
proof -
  have hyps: "distinct (map sc_server_id (server_configs empty_store))"
    "\<not> throws (config_call (join_at 5000 guild1))"
    "guild_id guild1_renamed = guild_id guild1"
    by (simp_all add: example_defs)
  have first: "server_configs (guildCreate (join_at 5000 guild1) guild1 empty_store) = [guild1_config]"
    by (simp add: guildCreate_def updateBotStats_def createServerConfig_def Let_def
        CURRENT_TIMESTAMP_def leveling_enabled_default_def example_defs)
  have key: "sc_server_id guild1_config = guild_id guild1"
    by (simp add: guild1_config_def guild1_def)
  from guildCreate_twice [OF hyps, of "join_at 90000 guild1_renamed"] hyps first key
  show ?thesis by simp
qed

section \<open>The award\<close>

text \<open>
  C2. The claim gives the award as an integer from 10 to 25, each of them attainable.
  Over the draws \<open>0 \<le> r < 1\<close> the awards of the code are exactly the integers from 10 to
  24: 25, the upper end of the range the comment in the source announces, is never
  awarded.
\<close>

theorem xpToAward_range: "xpToAward ` {0..<1} = {10..24}"
proof (rule set_eqI, rule iffI)
  fix n assume "n \<in> xpToAward ` {0..<1}"
  then obtain r where "0 \<le> r" "r < 1" "n = xpToAward r" by auto
  then show "n \<in> {10..24}" using xpToAward_bounds [of r] by simp
next
  fix n :: nat assume n: "n \<in> {10..24}"
  define r where "r = real (n - 10) / 15"
  have "0 \<le> r" "r < 1" using n by (simp_all add: r_def)
  moreover have "r * 15 = real (n - 10)" by (simp add: r_def)
  then have "xpToAward r = n" using n by (simp add: xpToAward_def)
  ultimately show "n \<in> xpToAward ` {0..<1}" by (metis atLeastLessThan_iff imageI)
qed

text \<open>
  C4. Whenever a call of \<^verbatim>\<open>awardXP\<close> changes the store, by the INSERT of a first
  contribution or by the UPDATE of a later one, every row of the author's pair holds a
  level equal to \<open>\<lfloor>0.1 * sqrt xp\<rfloor>\<close> of the experience it holds, and there is such a row.
\<close>

theorem awardXP_level_rederived:
  assumes "0 \<le> math_random e" and "math_random e < 1"
    and "msg_guild m = Some serverId"
    and "fst (awardXP e m d) \<noteq> d"
  shows "rows_of (author_id m) serverId (fst (awardXP e m d)) \<noteq> [] \<and>
         list_all (\<lambda>row. int (level row) = \<lfloor>0.1 * sqrt (real (xp row))\<rfloor>)
           (rows_of (author_id m) serverId (fst (awardXP e m d)))"
  using assms(3)
proof (cases rule: awardXP_cases [where e = e and d = d])
  case noop
  with assms(4) show ?thesis by simp
next
  case (update row)
  from update(1) obtain rs where rows: "rows_of (author_id m) serverId d = row # rs"
    by (auto simp add: select_rows_of split: list.splits)
  have "int (newLevel_of x) = \<lfloor>0.1 * sqrt (real x)\<rfloor>" for x
    by (simp add: newLevel_of_def)
  with update rows show ?thesis
    by (simp add: rows_of_update list_all_iff)
next
  case insert
  from insert(1) have rows: "rows_of (author_id m) serverId d = []"
    by (auto simp add: select_rows_of split: list.splits)
  from assms(1,2) have "xpToAward (math_random e) < 100"
    using xpToAward_bounds [of "math_random e"] by simp
  then have "newLevel_of (xpToAward (math_random e)) = 0"
    by (simp add: newLevel_of_eq_iff)
  then have "\<lfloor>0.1 * sqrt (real (xpToAward (math_random e)))\<rfloor> = 0"
    unfolding newLevel_of_def by (metis nat_0_iff zero_le_floor mult_nonneg_nonneg
        real_sqrt_ge_zero of_nat_0_le_iff order_antisym zero_le_numeral divide_nonneg_nonneg zero_le_one)
  with insert rows show ?thesis
    by (simp add: rows_of_insert)
qed

text \<open>A later contribution: 95 points and a draw of 17 give 112 points and level 1.\<close>

theorem awardXP_level_rederived_witness:
  "0 \<le> math_random (draw_at (1 / 2) 100000) \<and> math_random (draw_at (1 / 2) 100000) < 1 \<and>
   msg_guild alice_message = Some ''guild1'' \<and>
   fst (awardXP (draw_at (1 / 2) 100000) alice_message (store_with (alice_row 95 0 None)))
     \<noteq> store_with (alice_row 95 0 None) \<and>
   map (\<lambda>row. (xp row, level row))
     (rows_of (author_id alice_message) ''guild1''
       (fst (awardXP (draw_at (1 / 2) 100000) alice_message (store_with (alice_row 95 0 None)))))
     = [(112, 1)] \<and>
   list_all (\<lambda>row. int (level row) = \<lfloor>0.1 * sqrt (real (xp row))\<rfloor>)
     (rows_of (author_id alice_message) ''guild1''
       (fst (awardXP (draw_at (1 / 2) 100000) alice_message (store_with (alice_row 95 0 None)))))"
proof -
  let ?e = "draw_at (1 / 2) 100000" and ?d = "store_with (alice_row 95 0 None)"
  have r: "0 \<le> math_random ?e" "math_random ?e < 1" by (simp_all add: draw_at_def)
  have g: "msg_guild alice_message = Some ''guild1''" by (simp add: alice_message_def)
  have rows: "map (\<lambda>row. (xp row, level row))
     (rows_of (author_id alice_message) ''guild1'' (fst (awardXP ?e alice_message ?d))) = [(112, 1)]"
    by (simp add: awardXP_unfold example_defs example_draws example_levels)
  have w: "fst (awardXP ?e alice_message ?d) \<noteq> ?d"
    by (simp add: awardXP_unfold example_defs example_draws example_levels)
  from awardXP_level_rederived [OF r g w] r g w rows show ?thesis by simp
qed

text \<open>
  C5. A call that finds a row of the pair whose last award lies less than 60000 ms before
  \<^verbatim>\<open>Date.now()\<close> returns with the store unchanged and no reply. Hence, for calls handled
  one after the other from any store, whose resolution divides the minute and whose
  clock at the write is not behind \<^verbatim>\<open>Date.now()\<close> at the check, any two timestamps
  recorded for one pair lie at least 60000 ms apart (\<open>sorted_wrt\<close> relates every earlier
  entry of the list to every later one).
\<close>

theorem awardXP_cooldown:
  "(msg_guild m = Some serverId \<and> select_user_level (author_id m) serverId d = Some row \<and>
    last_xp_gain row = Some lastAward \<and> date_now e - lastAward < 60000
    \<longrightarrow> awardXP e m d = (d, []))
   \<and>
   (0 < resolution d \<and> resolution d dvd 60000 \<and>
    list_all (\<lambda>(e, m). date_now e \<le> clock (write_call e)) es
    \<longrightarrow> sorted_wrt (\<lambda>a b. 60000 \<le> b - a) (awards_recorded u s es d))"
proof (intro conjI impI)
  assume "msg_guild m = Some serverId \<and> select_user_level (author_id m) serverId d = Some row \<and>
    last_xp_gain row = Some lastAward \<and> date_now e - lastAward < 60000"
  then show "awardXP e m d = (d, [])"
    by (simp add: awardXP_def Let_def)
next
  assume "0 < resolution d \<and> resolution d dvd 60000 \<and>
    list_all (\<lambda>(e, m). date_now e \<le> clock (write_call e)) es"
  then show "sorted_wrt (\<lambda>a b. 60000 \<le> b - a) (awards_recorded u s es d)"
    by (intro awards_recorded_apart) (simp_all add: list_all_iff)
qed

text \<open>
  An award 30000 ms ago blocks the message; of the four messages in sequence the second
  and the fourth are awarded, at 130000 and 190000 on a store that keeps whole seconds.
\<close>

theorem awardXP_cooldown_witness:
  "msg_guild alice_message = Some ''guild1'' \<and>
   select_user_level (author_id alice_message) ''guild1'' (store_with (alice_row 100 1 (Some 70000)))
     = Some (alice_row 100 1 (Some 70000)) \<and>
   last_xp_gain (alice_row 100 1 (Some 70000)) = Some 70000 \<and>
   date_now (draw_at (1 / 2) 100000) - 70000 < 60000 \<and>
   awardXP (draw_at (1 / 2) 100000) alice_message (store_with (alice_row 100 1 (Some 70000)))
     = (store_with (alice_row 100 1 (Some 70000)), []) \<and>
   0 < resolution (store_with (alice_row 100 1 (Some 70000))) \<and>
   resolution (store_with (alice_row 100 1 (Some 70000))) dvd 60000 \<and>
   list_all (\<lambda>(e, m). date_now e \<le> clock (write_call e)) cooldown_events \<and>
   awards_recorded ''alice'' ''guild1'' cooldown_events (store_with (alice_row 100 1 (Some 70000)))
     = [130000, 190000] \<and>
   sorted_wrt (\<lambda>a b. 60000 \<le> b - a)
     (awards_recorded ''alice'' ''guild1'' cooldown_events
       (store_with (alice_row 100 1 (Some 70000))))"
proof -
  let ?d = "store_with (alice_row 100 1 (Some 70000))"
  have gate: "msg_guild alice_message = Some ''guild1'' \<and>
      select_user_level (author_id alice_message) ''guild1'' ?d = Some (alice_row 100 1 (Some 70000)) \<and>
      last_xp_gain (alice_row 100 1 (Some 70000)) = Some 70000 \<and>
      date_now (draw_at (1 / 2) 100000) - 70000 < 60000"
    by (simp add: example_defs select_user_level_def matches_def)
  have run: "0 < resolution ?d \<and> resolution ?d dvd 60000 \<and>
      list_all (\<lambda>(e, m). date_now e \<le> clock (write_call e)) cooldown_events"
    by (simp add: example_defs cooldown_events_def)
  have log: "awards_recorded ''alice'' ''guild1'' cooldown_events ?d = [130000, 190000]"
    by (simp add: cooldown_events_def awardXP_unfold example_defs example_draws)
  from awardXP_cooldown [where m = alice_message and serverId = "''guild1''" and d = ?d
      and row = "alice_row 100 1 (Some 70000)" and lastAward = 70000
      and e = "draw_at (1 / 2) 100000" and es = cooldown_events and u = "''alice''"
      and s = "''guild1''"] gate run log
  show ?thesis by simp
qed

text \<open>
  Against C5 as stated: the gate reads \<^verbatim>\<open>Date.now()\<close> and the stamp is the store's
  \<^verbatim>\<open>CURRENT_TIMESTAMP\<close>. On a store that keeps whole seconds and whose clock is one
  millisecond behind, two messages handled one after the other at 100000 and 159000 are
  both awarded, and the timestamps recorded are 99000 and 158000, which lie 59000 ms
  apart.
\<close>

theorem awardXP_clock_behind:
  "awards_recorded ''alice'' ''guild1'' behind_events empty_store = [99000, 158000]
   \<and> (158000 :: int) - 99000 < 60000
   \<and> 0 < resolution empty_store \<and> resolution empty_store dvd 60000"
  by (simp add: behind_events_def awardXP_unfold example_defs example_draws)

text \<open>
  C6. A call that changes the store over an existing row sends the congratulation, naming
  the new level, exactly when the level derived from the new total is greater than the
  level the row held, and sends nothing otherwise. With 80 points, level 0 and an award
  of 20 the new level is 1 and the congratulation on level 1 is sent.
\<close>

theorem awardXP_level_up:
  assumes "msg_guild m = Some serverId"
    and "select_user_level (author_id m) serverId d = Some row"
    and "fst (awardXP e m d) \<noteq> d"
  shows "snd (awardXP e m d) =
           (if level row < newLevel_of (xp row + xpToAward (math_random e))
            then [Congratulations (author_id m) (newLevel_of (xp row + xpToAward (math_random e)))]
            else [])
         \<and> (xp row = 80 \<and> level row = 0 \<and> xpToAward (math_random e) = 20
              \<longrightarrow> newLevel_of (xp row + xpToAward (math_random e)) = 1 \<and>
                  snd (awardXP e m d) = [Congratulations (author_id m) 1])"
proof -
  have general: "snd (awardXP e m d) =
           (if level row < newLevel_of (xp row + xpToAward (math_random e))
            then [Congratulations (author_id m) (newLevel_of (xp row + xpToAward (math_random e)))]
            else [])"
    using assms(1)
  proof (cases rule: awardXP_cases [where e = e and d = d])
    case noop
    with assms(3) show ?thesis by simp
  next
    case (update row')
    with assms(2) show ?thesis by simp
  next
    case insert
    with assms(2) show ?thesis by simp
  qed
  have "newLevel_of 100 = 1" by (simp add: newLevel_of_eq_iff)
  with general show ?thesis by simp
qed

theorem awardXP_level_up_witness:
  "msg_guild alice_message = Some ''guild1'' \<and>
   select_user_level (author_id alice_message) ''guild1'' (store_with (alice_row 80 0 None))
     = Some (alice_row 80 0 None) \<and>
   fst (awardXP (draw_at (7 / 10) 100000) alice_message (store_with (alice_row 80 0 None)))
     \<noteq> store_with (alice_row 80 0 None) \<and>
   xp (alice_row 80 0 None) = 80 \<and> level (alice_row 80 0 None) = 0 \<and>
   xpToAward (math_random (draw_at (7 / 10) 100000)) = 20 \<and>
   newLevel_of (xp (alice_row 80 0 None) + xpToAward (math_random (draw_at (7 / 10) 100000))) = 1 \<and>
   snd (awardXP (draw_at (7 / 10) 100000) alice_message (store_with (alice_row 80 0 None)))
     = [Congratulations ''alice'' 1]"
proof -
  let ?d = "store_with (alice_row 80 0 None)" and ?e = "draw_at (7 / 10) 100000"
  have g: "msg_guild alice_message = Some ''guild1''" by (simp add: alice_message_def)
  have sel: "select_user_level (author_id alice_message) ''guild1'' ?d = Some (alice_row 80 0 None)"
    by (simp add: example_defs select_user_level_def matches_def)
  have w: "fst (awardXP ?e alice_message ?d) \<noteq> ?d"
    by (simp add: awardXP_unfold example_defs example_draws example_levels)
  have ex: "xp (alice_row 80 0 None) = 80 \<and> level (alice_row 80 0 None) = 0 \<and>
      xpToAward (math_random ?e) = 20"
    by (simp add: example_defs example_draws)
  from awardXP_level_up [OF g sel w] g sel w ex show ?thesis
    by (simp add: alice_message_def)
qed

text \<open>
  C10. A message of a member, in a guild whose configuration has leveling on, that finds
  a row of the pair without a last-award timestamp is awarded whatever \<^verbatim>\<open>Date.now()\<close> shows,
  when the store accepts the statements: the rows of the pair are updated, the first of
  them now holds the new total, the derived level, one more message and the timestamp of
  the write, and the store has changed.
\<close>

theorem messageCreate_null_timestamp:
  assumes "\<not> author_bot m" and "msg_guild m = Some serverId"
    and "getServerConfig (config_select e) serverId d = Some config"
    and "leveling_enabled config \<noteq> 0"
    and "select_user_level (author_id m) serverId d = Some row"
    and "last_xp_gain row = None"
    and "\<not> throws (select_call (award_reads e))"
    and "\<not> throws (write_call (award_reads e))"
  shows "fst (messageCreate e m d) =
           update_user_level (xp row + xpToAward (math_random (award_reads e)))
             (newLevel_of (xp row + xpToAward (math_random (award_reads e))))
             (CURRENT_TIMESTAMP d (clock (write_call (award_reads e)))) (author_id m) serverId d
         \<and> select_user_level (author_id m) serverId (fst (messageCreate e m d)) =
           Some (row\<lparr>xp := xp row + xpToAward (math_random (award_reads e)),
                     level := newLevel_of (xp row + xpToAward (math_random (award_reads e))),
                     messages_sent := messages_sent row + 1,
                     last_xp_gain :=
                       Some (CURRENT_TIMESTAMP d (clock (write_call (award_reads e))))\<rparr>)
         \<and> fst (messageCreate e m d) \<noteq> d"
proof -
  let ?a = "award_reads e"
  let ?d' = "update_user_level (xp row + xpToAward (math_random ?a))
             (newLevel_of (xp row + xpToAward (math_random ?a)))
             (CURRENT_TIMESTAMP d (clock (write_call ?a))) (author_id m) serverId d"
  from assms(1-4) have "messageCreate e m d = awardXP ?a m d"
    by (simp add: messageCreate_def)
  moreover from assms(2,5-8) have "fst (awardXP ?a m d) = ?d'"
    by (simp add: awardXP_def Let_def)
  ultimately have written: "fst (messageCreate e m d) = ?d'" by simp
  have stored: "select_user_level (author_id m) serverId ?d' =
           Some (row\<lparr>xp := xp row + xpToAward (math_random ?a),
                     level := newLevel_of (xp row + xpToAward (math_random ?a)),
                     messages_sent := messages_sent row + 1,
                     last_xp_gain := Some (CURRENT_TIMESTAMP d (clock (write_call ?a)))\<rparr>)"
    using assms(5) by (rule update_user_level_select)
  have "?d' \<noteq> d"
  proof
    assume "?d' = d"
    with stored assms(5) have "row\<lparr>xp := xp row + xpToAward (math_random ?a),
                     level := newLevel_of (xp row + xpToAward (math_random ?a)),
                     messages_sent := messages_sent row + 1,
                     last_xp_gain := Some (CURRENT_TIMESTAMP d (clock (write_call ?a)))\<rparr> = row"
      by simp
    then have "messages_sent (row\<lparr>xp := xp row + xpToAward (math_random ?a),
                     level := newLevel_of (xp row + xpToAward (math_random ?a)),
                     messages_sent := messages_sent row + 1,
                     last_xp_gain := Some (CURRENT_TIMESTAMP d (clock (write_call ?a)))\<rparr>)
               = messages_sent row" by (rule arg_cong)
    then show False by simp
  qed
  with written stored show ?thesis by simp
qed

theorem messageCreate_null_timestamp_witness:
  "\<not> author_bot alice_message \<and> msg_guild alice_message = Some ''guild1'' \<and>
   getServerConfig (config_select (message_at (1 / 2) 100000)) ''guild1''
     (configured_store (alice_row 95 0 None)) = Some guild1_config \<and>
   leveling_enabled guild1_config \<noteq> 0 \<and>
   select_user_level (author_id alice_message) ''guild1'' (configured_store (alice_row 95 0 None))
     = Some (alice_row 95 0 None) \<and>
   last_xp_gain (alice_row 95 0 None) = None \<and>
   \<not> throws (select_call (award_reads (message_at (1 / 2) 100000))) \<and>
   \<not> throws (write_call (award_reads (message_at (1 / 2) 100000))) \<and>
   select_user_level (author_id alice_message) ''guild1''
     (fst (messageCreate (message_at (1 / 2) 100000) alice_message
        (configured_store (alice_row 95 0 None))))
     = Some \<lparr>ul_id = (0, ''a''), ul_user_id = ''alice'', ul_server_id = ''guild1'',
             xp = 112, level = 1, messages_sent = 8, last_xp_gain = Some 100000\<rparr> \<and>
   fst (messageCreate (message_at (1 / 2) 100000) alice_message
        (configured_store (alice_row 95 0 None)))
     \<noteq> configured_store (alice_row 95 0 None)"
proof -
  let ?e = "message_at (1 / 2) 100000" and ?d = "configured_store (alice_row 95 0 None)"
  have h1: "\<not> author_bot alice_message" and h2: "msg_guild alice_message = Some ''guild1''"
    by (simp_all add: alice_message_def)
  have h3: "getServerConfig (config_select ?e) ''guild1'' ?d = Some guild1_config"
    by (simp add: getServerConfig_def configured_store_def example_defs)
  have h4: "leveling_enabled guild1_config \<noteq> 0" by (simp add: guild1_config_def)
  have h5: "select_user_level (author_id alice_message) ''guild1'' ?d = Some (alice_row 95 0 None)"
    by (simp add: select_user_level_def matches_def configured_store_def example_defs)
  have h6: "last_xp_gain (alice_row 95 0 None) = None" by (simp add: alice_row_def)
  have h7: "\<not> throws (select_call (award_reads ?e))" and h8: "\<not> throws (write_call (award_reads ?e))"
    by (simp_all add: example_defs)
  have vals: "xpToAward (math_random (award_reads ?e)) = 17"
    "CURRENT_TIMESTAMP ?d (clock (write_call (award_reads ?e))) = 100000"
    by (simp_all add: example_defs example_draws CURRENT_TIMESTAMP_def configured_store_def)
  have fields: "xp (alice_row 95 0 None) = 95" "messages_sent (alice_row 95 0 None) = 7"
    "author_id alice_message = ''alice''"
    by (simp_all add: alice_row_def alice_message_def)
  have row: "alice_row 95 0 None\<lparr>xp := 112, level := Suc 0, messages_sent := 8,
      last_xp_gain := Some 100000\<rparr> =
      \<lparr>ul_id = (0, ''a''), ul_user_id = ''alice'', ul_server_id = ''guild1'',
       xp = 112, level = Suc 0, messages_sent = 8, last_xp_gain = Some 100000\<rparr>"
    by (simp add: alice_row_def)
  note award = messageCreate_null_timestamp [OF h1 h2 h3 h4 h5 h6 h7 h8]
  from award [THEN conjunct2, THEN conjunct1]
  have stored: "select_user_level (author_id alice_message) ''guild1''
      (fst (messageCreate ?e alice_message ?d)) =
      Some \<lparr>ul_id = (0, ''a''), ul_user_id = ''alice'', ul_server_id = ''guild1'',
             xp = 112, level = 1, messages_sent = 8, last_xp_gain = Some 100000\<rparr>"
    by (simp add: vals example_levels fields row)
  from award [THEN conjunct2, THEN conjunct2]
  have changed: "fst (messageCreate ?e alice_message ?d) \<noteq> ?d" .
  from h1 h2 h3 h4 h5 h6 h7 h8 stored changed show ?thesis by simp
qed

end
